theory Spec2Isabelle
  imports Main "HOL-Library.Word"
begin

unbundle bit_operations_syntax

section \<open>The ARM SysTick system clock driver (arch/arm/timer/systick.c)\<close>

text \<open>
  The driver keeps its state in file-level statics and in the memory-mapped SysTick
  registers. The embedding threads one record through every routine. C's
  \<^verbatim>\<open>uint32_t\<close> is \<^typ>\<open>32 word\<close> (arithmetic wraps); an \<^verbatim>\<open>int32_t\<close> is kept as its
  32-bit pattern, read with \<^term>\<open>sint\<close> where the sign matters.
\<close>

type_synonym u32 = "32 word"

text \<open>
  What stops a routine: the boot-time \<^verbatim>\<open>__ASSERT\<close>, and an unsigned division whose
  divisor is zero (undefined in C, a UsageFault on the Cortex-M3 when the
  divide-by-zero trap is armed).
\<close>

datatype fault = AssertionFailed | DivideByZero

text \<open>
  The preprocessor switches that select the code of the interrupt handler and of
  \<^verbatim>\<open>timer_driver\<close>. The paths under \<^verbatim>\<open>CONFIG_ADVANCED_POWER_MANAGEMENT\<close> push
  onto \<^verbatim>\<open>K_Args\<close> without testing \<^verbatim>\<open>CONFIG_MICROKERNEL\<close>; the path without power
  management tests it.
\<close>

record build_config =
  CONFIG_ADVANCED_POWER_MANAGEMENT :: bool
  CONFIG_TICKLESS_IDLE :: bool
  CONFIG_MICROKERNEL :: bool

text \<open>
  A nanokernel timer, \<^verbatim>\<open>struct nano_timer\<close>: the ticks left until it expires (relative
  to the timer before it in \<^verbatim>\<open>_nano_timer_list\<close>), the datum to hand over, and the
  LIFO that receives it. The \<^verbatim>\<open>link\<close> field is the list itself.
\<close>

record nano_timer =
  nt_ticks :: u32
  nt_userData :: nat
  nt_lifo :: "nat list"

text \<open>
  \<^verbatim>\<open>timerMode\<close> and \<^verbatim>\<open>idleMode\<close> are \<^verbatim>\<open>unsigned char\<close> statics that only ever
  hold the two constants \<^verbatim>\<open>#define\<close>d for each of them (0 and 1, in this order).
\<close>

datatype timer_mode = TIMER_MODE_PERIODIC | TIMER_MODE_ONE_SHOT

datatype idle_mode = IDLE_NOT_TICKLESS | IDLE_TICKLESS

record systick_state =
  \<comment> \<open>the SysTick registers \<^verbatim>\<open>__scs.systick\<close>\<close>
  stcsr :: u32
  strvr :: u32
  stcvr :: u32
  \<comment> \<open>the driver's statics\<close>
  accumulatedCount :: u32
  defaultLoadVal :: u32
  idleOrigCount :: u32
  maxSysTicks :: u32
  idleOrigTicks :: u32
  maxLoadValue :: u32
  timerIdleSkew :: u32
  timerMode :: timer_mode
  idleMode :: idle_mode
  \<comment> \<open>kernel globals the driver reads and writes\<close>
  SysIdleElapsedTicks :: u32
  sys_clock_hw_cycles_per_tick :: u32
  NanoIdleVal :: u32
  K_Args :: nat
  primask :: bool
  nano_ticks :: "64 word"
  nano_timer_list :: "nano_timer list"
  nano_timers_expired :: "nano_timer list"

text \<open>
  \<^term>\<open>SysIdleElapsedTicks\<close> is \<^verbatim>\<open>_SysIdleElapsedTicks\<close> (an \<^verbatim>\<open>int32_t\<close>),
  \<^term>\<open>NanoIdleVal\<close> the kernel's idle request behind \<^verbatim>\<open>_NanoIdleValGet\<close> and
  \<^verbatim>\<open>_NanoIdleValClear\<close>, \<^term>\<open>K_Args\<close> the number of \<^verbatim>\<open>TICK_EVENT\<close> entries pushed
  onto the microkernel stack \<^verbatim>\<open>K_Args\<close> so far, and \<^term>\<open>primask\<close> the interrupt
  mask (\<^verbatim>\<open>cpsid i\<close> sets it, \<^verbatim>\<open>cpsie i\<close> clears it). \<^term>\<open>nano_ticks\<close> is the
  nanokernel's tick counter \<^verbatim>\<open>_nano_ticks\<close>, declared outside this driver and taken as
  a 64-bit counter; \<^term>\<open>nano_timer_list\<close> is \<^verbatim>\<open>_nano_timer_list\<close>, and
  \<^term>\<open>nano_timers_expired\<close> collects the timers the handler has taken off that list,
  in the order of their expiry.
\<close>

subsection \<open>The register block\<close>

text \<open>
  Modelled from the spec: the register block \<^verbatim>\<open>__scs\<close> and the union
  \<^verbatim>\<open>__stcsr\<close> are declared in an architecture header, outside this driver. The
  spec describes the device as a counter with a reload register, a live count register,
  an enable/interrupt-enable/clock-source control register and a sticky flag "wrapped to
  zero since last read"; reading the status register clears that flag, and so does a
  write of the count register, which also zeroes the count. The driver's own comments
  say the same ("countflag is cleared by this read", "also clears the countflag"). The
  bit positions are those of the ARMv7-M SysTick control and status register, which the
  initialisers \<^verbatim>\<open>{.bit = {1, 1, 1, 0, 0, 0}}\<close> follow: enable is bit 0, tickint
  bit 1, clksource bit 2, countflag bit 16. The flag is a status bit that the counter
  sets: a write of the control register leaves it as it is. The reload register keeps
  the 32-bit value written to it: the driver assumes that every value it writes fits the
  24 bits of the counter (comment on \<^verbatim>\<open>sysTickReloadSet\<close>).
\<close>

definition STCSR_ENABLE :: u32 where "STCSR_ENABLE = 0x1"
definition STCSR_TICKINT :: u32 where "STCSR_TICKINT = 0x2"
definition STCSR_CLKSOURCE :: u32 where "STCSR_CLKSOURCE = 0x4"
definition STCSR_COUNTFLAG :: u32 where "STCSR_COUNTFLAG = 0x10000"

definition stcsr_read :: "systick_state \<Rightarrow> u32 \<times> systick_state" where
  "stcsr_read s = (stcsr s, s\<lparr>stcsr := stcsr s AND NOT STCSR_COUNTFLAG\<rparr>)"

definition stcsr_write :: "u32 \<Rightarrow> systick_state \<Rightarrow> systick_state" where
  "stcsr_write v s =
     s\<lparr>stcsr := (v AND NOT STCSR_COUNTFLAG) OR (stcsr s AND STCSR_COUNTFLAG)\<rparr>"

definition stcvr_write :: "u32 \<Rightarrow> systick_state \<Rightarrow> systick_state" where
  "stcvr_write v s = s\<lparr>stcvr := 0, stcsr := stcsr s AND NOT STCSR_COUNTFLAG\<rparr>"

text \<open>
  The counter itself is the environment. \<open>hw_run c wrapped\<close> lets it count until the
  count register reads \<open>c\<close>; \<open>wrapped\<close> says whether it passed through zero on the
  way, which sets the flag.
\<close>

definition hw_run :: "u32 \<Rightarrow> bool \<Rightarrow> systick_state \<Rightarrow> systick_state" where
  "hw_run c wrapped s =
     s\<lparr>stcvr := c,
       stcsr := (if wrapped then stcsr s OR STCSR_COUNTFLAG else stcsr s)\<rparr>"

subsection \<open>Register helpers of the driver\<close>

definition sysTickStop :: "systick_state \<Rightarrow> systick_state" where
  "sysTickStop s =
     (case stcsr_read s of
        (reg, s1) \<Rightarrow> stcsr_write (reg AND NOT STCSR_ENABLE AND NOT STCSR_TICKINT) s1)"

definition sysTickStart :: "systick_state \<Rightarrow> systick_state" where
  "sysTickStart s =
     (case stcsr_read s of
        (reg, s1) \<Rightarrow>
          stcsr_write (reg OR STCSR_ENABLE OR STCSR_TICKINT OR STCSR_CLKSOURCE) s1)"

definition sysTickCurrentGet :: "systick_state \<Rightarrow> u32" where
  "sysTickCurrentGet s = stcvr s"

definition sysTickReloadGet :: "systick_state \<Rightarrow> u32" where
  "sysTickReloadGet s = strvr s"

definition sysTickReloadSet :: "u32 \<Rightarrow> systick_state \<Rightarrow> systick_state" where
  "sysTickReloadSet count s = stcvr_write 0 (s\<lparr>strvr := count\<rparr>)"

text \<open>\<^verbatim>\<open>nano_isr_stack_push(&K_Args, TICK_EVENT)\<close>: one more tick event for the kernel.\<close>

definition nano_isr_stack_push_TICK_EVENT :: "systick_state \<Rightarrow> systick_state" where
  "nano_isr_stack_push_TICK_EVENT s = s\<lparr>K_Args := Suc (K_Args s)\<rparr>"

subsection \<open>Tickless idle\<close>

text \<open>
  \<^verbatim>\<open>_timer_idle_enter(int32_t ticks)\<close>. The test \<^verbatim>\<open>ticks > maxSysTicks\<close> compares an
  \<^verbatim>\<open>int32_t\<close> with a \<^verbatim>\<open>uint32_t\<close>, so C converts \<open>ticks\<close> to unsigned: it is the
  unsigned order of \<^typ>\<open>32 word\<close>. \<^verbatim>\<open>ticks - 1\<close> stored in the unsigned
  \<^verbatim>\<open>idleOrigTicks\<close> wraps.
\<close>

definition timer_idle_enter :: "u32 \<Rightarrow> systick_state \<Rightarrow> systick_state" where
  "timer_idle_enter ticks s =
     (let s1 = sysTickStop s;
          s2 = s1\<lparr>idleOrigCount := sysTickCurrentGet s1 - timerIdleSkew s1\<rparr>;
          s3 = (if ticks = - 1 \<or> ticks > maxSysTicks s2
                then s2\<lparr>idleOrigCount :=
                          idleOrigCount s2 + (maxLoadValue s2 - defaultLoadVal s2),
                        idleOrigTicks := maxSysTicks s2 - 1\<rparr>
                else (let s' = s2\<lparr>idleOrigTicks := ticks - 1\<rparr>
                      in s'\<lparr>idleOrigCount :=
                              idleOrigCount s' + idleOrigTicks s' * defaultLoadVal s'\<rparr>));
          s4 = s3\<lparr>timerMode := TIMER_MODE_ONE_SHOT, idleMode := IDLE_TICKLESS\<rparr>;
          s5 = sysTickReloadSet (idleOrigCount s4) s4
      in sysTickStart s5)"

text \<open>
  \<^verbatim>\<open>_timer_idle_exit\<close>. The test \<^verbatim>\<open>(count == 0) || countflag\<close> reads the status
  register only when the count is not zero. \<^verbatim>\<open>elapsed % defaultLoadVal\<close> is the first
  division of the second branch.
\<close>

definition countflag_get :: "systick_state \<Rightarrow> bool \<times> systick_state" where
  "countflag_get s = (case stcsr_read s of (reg, s1) \<Rightarrow> (reg AND STCSR_COUNTFLAG \<noteq> 0, s1))"

definition timer_idle_exit :: "systick_state \<Rightarrow> fault + systick_state" where
  "timer_idle_exit s =
     (if timerMode s = TIMER_MODE_PERIODIC then Inr s
      else
        (let s1 = sysTickStop s;
             count = sysTickCurrentGet s1
         in case (if count = 0 then (True, s1) else countflag_get s1) of
              (expired, s2) \<Rightarrow>
                if expired then
                  (let s3 = (sysTickReloadSet (defaultLoadVal s2) s2)
                              \<lparr>timerMode := TIMER_MODE_PERIODIC\<rparr>;
                       s4 = nano_isr_stack_push_TICK_EVENT
                              (s3\<lparr>SysIdleElapsedTicks := idleOrigTicks s3 - 1\<rparr>)
                   in Inr (sysTickStart (s4\<lparr>idleMode := IDLE_NOT_TICKLESS\<rparr>)))
                else if defaultLoadVal s2 = 0 then Inl DivideByZero
                else
                  (let elapsed = idleOrigCount s2 - count;
                       remaining = elapsed mod defaultLoadVal s2;
                       s3 = (if remaining = 0 then
                               (sysTickReloadSet (defaultLoadVal s2) s2)
                                 \<lparr>timerMode := TIMER_MODE_PERIODIC\<rparr>
                             else if count > remaining then sysTickReloadSet remaining s2
                             else s2);
                       s4 = s3\<lparr>SysIdleElapsedTicks := elapsed div defaultLoadVal s3\<rparr>;
                       s5 = (if SysIdleElapsedTicks s4 \<noteq> 0
                             then nano_isr_stack_push_TICK_EVENT s4 else s4)
                   in Inr (sysTickStart (s5\<lparr>idleMode := IDLE_NOT_TICKLESS\<rparr>)))))"

text \<open>
  \<^verbatim>\<open>sysTickTicklessIdleInit\<close>. The three reads of the running counter are inputs
  \<open>(c1, c2, c3)\<close>: the count at the start of the skew measurement, the count read into
  \<^verbatim>\<open>dummy\<close>, and the count at its end. \<^verbatim>\<open>dummy\<close> only emulates the arithmetic of an
  idle entry and is stored nowhere, so the model reads it and drops it.
\<close>

definition stcsr_or :: "u32 \<Rightarrow> systick_state \<Rightarrow> systick_state" where
  "stcsr_or v s = (case stcsr_read s of (reg, s1) \<Rightarrow> stcsr_write (reg OR v) s1)"

definition sysTickTicklessIdleInit ::
  "u32 \<times> u32 \<times> u32 \<Rightarrow> systick_state \<Rightarrow> fault + systick_state" where
  "sysTickTicklessIdleInit obs s =
     (case obs of
        (c1, c2, c3) \<Rightarrow>
          (let stcsr_val = STCSR_ENABLE OR STCSR_CLKSOURCE;
               s1 = s\<lparr>defaultLoadVal := sysTickReloadGet s\<rparr>
           in if defaultLoadVal s1 = 0 then Inl DivideByZero
              else
                (let s2 = s1\<lparr>maxSysTicks := 0x00ffffff div defaultLoadVal s1\<rparr>;
                     s3 = s2\<lparr>maxLoadValue := maxSysTicks s2 * defaultLoadVal s2\<rparr>;
                     s4 = hw_run c1 False (stcsr_or stcsr_val s3);
                     s5 = s4\<lparr>timerIdleSkew := sysTickCurrentGet s4\<rparr>;
                     s6 = hw_run c2 False (stcsr_or stcsr_val s5);
                     s7 = hw_run c3 False (stcsr_or stcsr_val s6);
                     s8 = s7\<lparr>timerMode := TIMER_MODE_PERIODIC\<rparr>;
                     s9 = s8\<lparr>timerIdleSkew := timerIdleSkew s8 - sysTickCurrentGet s8\<rparr>
                 in Inr (sysTickReloadSet (defaultLoadVal s9) (sysTickStop s9)))))"

subsection \<open>The tick interrupt\<close>

text \<open>
  Modelled from the spec: \<^verbatim>\<open>_SysPowerSaveIdleExit\<close> belongs to the kernel's power
  management and is defined outside this driver. The spec has the handler "invoke the
  collaborator's idle-exit notification (which internally may call Exit)", and the
  driver's comment on \<^verbatim>\<open>_timer_idle_exit\<close> names it as the caller; without tickless
  idle there is no \<^verbatim>\<open>_timer_idle_exit\<close> to call.
\<close>

definition SysPowerSaveIdleExit ::
  "build_config \<Rightarrow> u32 \<Rightarrow> systick_state \<Rightarrow> fault + systick_state" where
  "SysPowerSaveIdleExit cfg ticks s =
     (if CONFIG_TICKLESS_IDLE cfg then timer_idle_exit s else Inr s)"

text \<open>
  The loop of the nanokernel-only handler: while the first timer of the list has no ticks
  left, take it off the list and put its datum on its LIFO
  (\<^verbatim>\<open>nano_isr_lifo_put(chan, expired->userData)\<close>). The result is the list that is left
  and the timers taken off.
\<close>

fun nano_timers_expire :: "nano_timer list \<Rightarrow> nano_timer list \<times> nano_timer list" where
  "nano_timers_expire [] = ([], [])"
| "nano_timers_expire (t # ts) =
     (if nt_ticks t = 0 then
        (case nano_timers_expire ts of
           (rest, expired) \<Rightarrow> (rest, t\<lparr>nt_lifo := nt_userData t # nt_lifo t\<rparr> # expired))
      else (t # ts, []))"

text \<open>
  \<^verbatim>\<open>_TIMER_INT_HANDLER\<close>, one definition for the four ways the preprocessor builds it:
  with power management and tickless idle, with power management alone, and without
  power management in a microkernel or in a nanokernel-only system. The latency
  benchmark and \<^verbatim>\<open>_ExcExit\<close> touch nothing of the state kept here.
  \<^verbatim>\<open>_SysIdleElapsedTicks++\<close> is taken to wrap at 32 bits.
\<close>

definition timer_int_handler ::
  "build_config \<Rightarrow> systick_state \<Rightarrow> fault + systick_state" where
  "timer_int_handler cfg s =
     (if CONFIG_ADVANCED_POWER_MANAGEMENT cfg then
        (let s0 = s\<lparr>primask := True\<rparr>;
             s3 =
               (if CONFIG_TICKLESS_IDLE cfg then
                  (let s1 = (if timerMode s0 = TIMER_MODE_ONE_SHOT then
                               (sysTickStart
                                  (sysTickReloadSet (defaultLoadVal s0) (sysTickStop s0)))
                                 \<lparr>timerMode := TIMER_MODE_PERIODIC\<rparr>
                             else s0);
                       s2 = (if idleMode s1 = IDLE_TICKLESS then
                               nano_isr_stack_push_TICK_EVENT
                                 (s1\<lparr>idleMode := IDLE_NOT_TICKLESS,
                                     SysIdleElapsedTicks := idleOrigTicks s1 + 1\<rparr>)
                             else
                               (let s' = s1\<lparr>SysIdleElapsedTicks :=
                                              SysIdleElapsedTicks s1 + 1\<rparr>
                                in if SysIdleElapsedTicks s' = 1
                                   then nano_isr_stack_push_TICK_EVENT s' else s'))
                   in s2\<lparr>accumulatedCount :=
                           accumulatedCount s2
                             + defaultLoadVal s2 * SysIdleElapsedTicks s2\<rparr>)
                else
                  nano_isr_stack_push_TICK_EVENT
                    (s0\<lparr>accumulatedCount :=
                          accumulatedCount s0 + sys_clock_hw_cycles_per_tick s0\<rparr>));
             numIdleTicks = NanoIdleVal s3
         in case (if numIdleTicks \<noteq> 0
                  then SysPowerSaveIdleExit cfg numIdleTicks (s3\<lparr>NanoIdleVal := 0\<rparr>)
                  else Inr s3) of
              Inl e \<Rightarrow> Inl e
            | Inr s4 \<Rightarrow> Inr (s4\<lparr>primask := False\<rparr>))
      else
        (let s1 = s\<lparr>accumulatedCount :=
                     accumulatedCount s + sys_clock_hw_cycles_per_tick s\<rparr>
         in if CONFIG_MICROKERNEL cfg then Inr (nano_isr_stack_push_TICK_EVENT s1)
            else
              (let s2 = s1\<lparr>nano_ticks := nano_ticks s1 + 1\<rparr>
               in case nano_timer_list s2 of
                    [] \<Rightarrow> Inr s2
                  | t # ts \<Rightarrow>
                      (case nano_timers_expire (t\<lparr>nt_ticks := nt_ticks t - 1\<rparr> # ts) of
                         (rest, expired) \<Rightarrow>
                           Inr (s2\<lparr>nano_timer_list := rest,
                                    nano_timers_expired :=
                                      nano_timers_expired s2 @ expired\<rparr>)))))"

subsection \<open>Configuration, reading and disabling\<close>

text \<open>
  Modelled from the spec: \<^verbatim>\<open>__ASSERT\<close> (misc/__assert.h) and the declaration of
  \<^verbatim>\<open>sys_clock_hw_cycles_per_tick\<close> (clock_vars.h) come from outside this driver.
  The spec makes the assertion a fatal configuration error that halts initialization,
  and gives the cycle count as an unsigned 32-bit value. \<^verbatim>\<open>_ScbExcPrioSet\<close> and
  \<^verbatim>\<open>task_event_set_handler\<close> touch nothing of the state kept here.
\<close>

definition timer_driver ::
  "build_config \<Rightarrow> u32 \<times> u32 \<times> u32 \<Rightarrow> systick_state \<Rightarrow> fault + systick_state" where
  "timer_driver cfg obs s =
     (let stcsr_val = STCSR_ENABLE OR STCSR_TICKINT OR STCSR_CLKSOURCE
      in if \<not> sys_clock_hw_cycles_per_tick s \<le> push_bit 24 1 then Inl AssertionFailed
         else
           (let s1 = sysTickReloadSet (sys_clock_hw_cycles_per_tick s - 1) s
            in case (if CONFIG_TICKLESS_IDLE cfg then sysTickTicklessIdleInit obs s1
                     else Inr s1) of
                 Inl e \<Rightarrow> Inl e
               | Inr s2 \<Rightarrow> Inr (stcsr_write stcsr_val s2)))"

definition timer_read :: "systick_state \<Rightarrow> u32" where
  "timer_read s = accumulatedCount s + (strvr s - stcvr s)"

text \<open>
  \<^verbatim>\<open>timer_disable\<close>: \<^verbatim>\<open>irq_lock\<close> masks interrupts and returns the mask as it was,
  \<^verbatim>\<open>irq_unlock\<close> puts it back.
\<close>

definition timer_disable :: "systick_state \<Rightarrow> systick_state" where
  "timer_disable s =
     (let key = primask s;
          s1 = sysTickStop (s\<lparr>primask := True\<rparr>)
      in s1\<lparr>primask := key\<rparr>)"

subsection \<open>Scenarios\<close>

text \<open>
  The state at reset: the initialised statics of the driver hold their initialisers, the
  \<^verbatim>\<open>__noinit\<close> ones and the registers are taken as zero, and the kernel has set the
  number of hardware cycles per tick.
\<close>

definition boot_state :: "u32 \<Rightarrow> systick_state" where
  "boot_state cycles =
     \<lparr>stcsr = 0, strvr = 0, stcvr = 0,
      accumulatedCount = 0, defaultLoadVal = 0, idleOrigCount = 0, maxSysTicks = 0,
      idleOrigTicks = 0, maxLoadValue = 0, timerIdleSkew = 0,
      timerMode = TIMER_MODE_PERIODIC, idleMode = IDLE_NOT_TICKLESS,
      SysIdleElapsedTicks = 0, sys_clock_hw_cycles_per_tick = cycles,
      NanoIdleVal = 0, K_Args = 0, primask = False,
      nano_ticks = 0, nano_timer_list = [], nano_timers_expired = []\<rparr>"

text \<open>
  A natural interrupt: the counter reaches zero, reloads and raises the flag, and the
  handler runs. \<open>natural_interrupts cfg k\<close> is \<open>k\<close> of them in a row.
\<close>

fun natural_interrupts ::
  "build_config \<Rightarrow> nat \<Rightarrow> systick_state \<Rightarrow> fault + systick_state" where
  "natural_interrupts cfg 0 s = Inr s"
| "natural_interrupts cfg (Suc k) s =
     (case timer_int_handler cfg (hw_run (strvr s) True s) of
        Inl e \<Rightarrow> Inl e
      | Inr s' \<Rightarrow> natural_interrupts cfg k s')"

text \<open>
  Three builds: the microkernel with power management and tickless idle, the microkernel
  with neither, and the nanokernel-only system. And the state
  that \<^verbatim>\<open>timer_driver\<close> leaves in the tickless build for 1000 cycles per tick, when the
  three reads of the skew measurement see 995, 990 and 983.
\<close>

definition tickless_build :: build_config where
  "tickless_build =
     \<lparr>CONFIG_ADVANCED_POWER_MANAGEMENT = True, CONFIG_TICKLESS_IDLE = True,
      CONFIG_MICROKERNEL = True\<rparr>"

definition periodic_build :: build_config where
  "periodic_build =
     \<lparr>CONFIG_ADVANCED_POWER_MANAGEMENT = False, CONFIG_TICKLESS_IDLE = False,
      CONFIG_MICROKERNEL = True\<rparr>"

definition nanokernel_build :: build_config where
  "nanokernel_build =
     \<lparr>CONFIG_ADVANCED_POWER_MANAGEMENT = False, CONFIG_TICKLESS_IDLE = False,
      CONFIG_MICROKERNEL = False\<rparr>"

definition tickless_1000 :: systick_state where
  "tickless_1000 =
     \<lparr>stcsr = 7, strvr = 999, stcvr = 0,
      accumulatedCount = 0, defaultLoadVal = 999, idleOrigCount = 0, maxSysTicks = 16794,
      idleOrigTicks = 0, maxLoadValue = 16777206, timerIdleSkew = 12,
      timerMode = TIMER_MODE_PERIODIC, idleMode = IDLE_NOT_TICKLESS,
      SysIdleElapsedTicks = 0, sys_clock_hw_cycles_per_tick = 1000,
      NanoIdleVal = 0, K_Args = 0, primask = False,
      nano_ticks = 0, nano_timer_list = [], nano_timers_expired = []\<rparr>"

text \<open>
  The same build for 4000000 cycles per tick (four ticks fit the counter), and the state
  after \<^verbatim>\<open>_timer_idle_enter(10)\<close> there, entered when the counter had run down to
  2000000.
\<close>

definition tickless_4M :: systick_state where
  "tickless_4M =
     \<lparr>stcsr = 7, strvr = 3999999, stcvr = 0,
      accumulatedCount = 0, defaultLoadVal = 3999999, idleOrigCount = 0, maxSysTicks = 4,
      idleOrigTicks = 0, maxLoadValue = 15999996, timerIdleSkew = 12,
      timerMode = TIMER_MODE_PERIODIC, idleMode = IDLE_NOT_TICKLESS,
      SysIdleElapsedTicks = 0, sys_clock_hw_cycles_per_tick = 4000000,
      NanoIdleVal = 0, K_Args = 0, primask = False,
      nano_ticks = 0, nano_timer_list = [], nano_timers_expired = []\<rparr>"

definition idle_4M :: systick_state where
  "idle_4M =
     \<lparr>stcsr = 7, strvr = 13999985, stcvr = 0,
      accumulatedCount = 0, defaultLoadVal = 3999999, idleOrigCount = 13999985,
      maxSysTicks = 4, idleOrigTicks = 3, maxLoadValue = 15999996, timerIdleSkew = 12,
      timerMode = TIMER_MODE_ONE_SHOT, idleMode = IDLE_TICKLESS,
      SysIdleElapsedTicks = 0, sys_clock_hw_cycles_per_tick = 4000000,
      NanoIdleVal = 0, K_Args = 0, primask = False,
      nano_ticks = 0, nano_timer_list = [], nano_timers_expired = []\<rparr>"

text \<open>
  The states that \<^verbatim>\<open>timer_driver\<close> leaves in the build without tickless idle, for
  1000 cycles per tick and for the largest period, \<open>2^24\<close> cycles.
\<close>

definition periodic_1000 :: systick_state where
  "periodic_1000 =
     \<lparr>stcsr = 7, strvr = 999, stcvr = 0,
      accumulatedCount = 0, defaultLoadVal = 0, idleOrigCount = 0, maxSysTicks = 0,
      idleOrigTicks = 0, maxLoadValue = 0, timerIdleSkew = 0,
      timerMode = TIMER_MODE_PERIODIC, idleMode = IDLE_NOT_TICKLESS,
      SysIdleElapsedTicks = 0, sys_clock_hw_cycles_per_tick = 1000,
      NanoIdleVal = 0, K_Args = 0, primask = False,
      nano_ticks = 0, nano_timer_list = [], nano_timers_expired = []\<rparr>"

definition periodic_16M :: systick_state where
  "periodic_16M =
     \<lparr>stcsr = 7, strvr = 0xFFFFFF, stcvr = 0,
      accumulatedCount = 0, defaultLoadVal = 0, idleOrigCount = 0, maxSysTicks = 0,
      idleOrigTicks = 0, maxLoadValue = 0, timerIdleSkew = 0,
      timerMode = TIMER_MODE_PERIODIC, idleMode = IDLE_NOT_TICKLESS,
      SysIdleElapsedTicks = 0, sys_clock_hw_cycles_per_tick = 0x1000000,
      NanoIdleVal = 0, K_Args = 0, primask = False,
      nano_ticks = 0, nano_timer_list = [], nano_timers_expired = []\<rparr>"

text \<open>
  What can happen to the timer, one event at a time: the tick interrupt, an idle entry, an
  idle exit, and the counter counting on. \<open>run\<close> plays a list of events from a state.
\<close>

datatype event = Interrupt | IdleEnter u32 | IdleExit | Count u32 bool

fun step :: "build_config \<Rightarrow> event \<Rightarrow> systick_state \<Rightarrow> fault + systick_state" where
  "step cfg Interrupt s = timer_int_handler cfg s"
| "step cfg (IdleEnter n) s = Inr (timer_idle_enter n s)"
| "step cfg IdleExit s = timer_idle_exit s"
| "step cfg (Count c wrapped) s = Inr (hw_run c wrapped s)"

fun run :: "build_config \<Rightarrow> event list \<Rightarrow> systick_state \<Rightarrow> fault + systick_state" where
  "run cfg [] s = Inr s"
| "run cfg (e # es) s =
     (case step cfg e s of Inl f \<Rightarrow> Inl f | Inr s' \<Rightarrow> run cfg es s')"

text \<open>
  The cycles one run of the handler adds to the accumulator, as a number without a width:
  the reload value times the elapsed ticks it reports on the tickless path, the cycles
  per tick on every other path. \<open>no_overflow\<close> says that along a run of events no such
  addition leaves the 32 bits of the accumulator.
\<close>

definition tick_cycles :: "build_config \<Rightarrow> systick_state \<Rightarrow> systick_state \<Rightarrow> nat" where
  "tick_cycles cfg s s' =
     (if CONFIG_ADVANCED_POWER_MANAGEMENT cfg \<and> CONFIG_TICKLESS_IDLE cfg
      then unat (defaultLoadVal s) * unat (SysIdleElapsedTicks s')
      else unat (sys_clock_hw_cycles_per_tick s))"

fun no_overflow :: "build_config \<Rightarrow> event list \<Rightarrow> systick_state \<Rightarrow> bool" where
  "no_overflow cfg [] s = True"
| "no_overflow cfg (e # es) s =
     (case step cfg e s of
        Inl f \<Rightarrow> True
      | Inr s' \<Rightarrow>
          (case e of
             Interrupt \<Rightarrow> unat (accumulatedCount s) + tick_cycles cfg s s' < 2 ^ 32
           | _ \<Rightarrow> True)
          \<and> no_overflow cfg es s')"

text \<open>One idle interval that runs to its end, with a redundant exit after it.\<close>

definition idle_cycle :: "event list" where
  "idle_cycle = [IdleEnter 10, Count 0 True, Interrupt, IdleExit]"

section \<open>Properties\<close>

subsection \<open>Closed forms of the register helpers\<close>

lemmas stcsr_bits = STCSR_ENABLE_def STCSR_TICKINT_def STCSR_CLKSOURCE_def STCSR_COUNTFLAG_def

lemma stop_mask:
  "((w AND NOT e AND NOT t) AND NOT c) OR ((w AND NOT c) AND c)
     = w AND NOT (e OR t OR (c :: 'a :: len word))"
  by (auto simp add: bit_eq_iff bit_simps)

lemma start_mask:
  "((w OR m) AND NOT c) OR ((w AND NOT c) AND c)
     = (w AND NOT c) OR (m AND NOT (c :: 'a :: len word))"
  by (auto simp add: bit_eq_iff bit_simps)

lemma start_bits:
  "(STCSR_ENABLE OR STCSR_TICKINT OR STCSR_CLKSOURCE) AND NOT STCSR_COUNTFLAG
     = STCSR_ENABLE OR STCSR_TICKINT OR STCSR_CLKSOURCE"
  by (simp add: stcsr_bits)

lemma mask_idem: "(w AND NOT m) AND NOT m = w AND NOT (m :: 'a :: len word)"
  by (auto simp add: bit_eq_iff bit_simps)

lemma mask_clear: "(w AND NOT m) AND m = (0 :: 'a :: len word)"
  by (auto simp add: bit_eq_iff bit_simps)

lemma clksource_kept:
  "(w AND NOT (STCSR_ENABLE OR STCSR_TICKINT OR STCSR_COUNTFLAG)) AND STCSR_CLKSOURCE
     = w AND STCSR_CLKSOURCE"
proof -
  have "STCSR_CLKSOURCE AND NOT (STCSR_ENABLE OR STCSR_TICKINT OR STCSR_COUNTFLAG)
          = STCSR_CLKSOURCE"
    by (simp add: stcsr_bits)
  then show ?thesis
    by (metis and.assoc and.commute)
qed

lemma sysTickStop_eq:
  "sysTickStop s =
     s\<lparr>stcsr := stcsr s AND NOT (STCSR_ENABLE OR STCSR_TICKINT OR STCSR_COUNTFLAG)\<rparr>"
  by (simp add: sysTickStop_def stcsr_read_def stcsr_write_def stop_mask)

lemma stcsr_sysTickStop:
  "stcsr (sysTickStop s)
     = stcsr s AND NOT (STCSR_ENABLE OR STCSR_TICKINT OR STCSR_COUNTFLAG)"
  by (simp add: sysTickStop_eq)

lemma sysTickStart_eq:
  "sysTickStart s =
     s\<lparr>stcsr := (stcsr s AND NOT STCSR_COUNTFLAG)
                  OR (STCSR_ENABLE OR STCSR_TICKINT OR STCSR_CLKSOURCE)\<rparr>"
  using start_mask [of "stcsr s" "STCSR_ENABLE OR STCSR_TICKINT OR STCSR_CLKSOURCE"
      STCSR_COUNTFLAG]
  by (simp add: sysTickStart_def stcsr_read_def stcsr_write_def start_bits or.assoc)

lemma sysTickReloadSet_eq:
  "sysTickReloadSet c s =
     s\<lparr>strvr := c, stcvr := 0, stcsr := stcsr s AND NOT STCSR_COUNTFLAG\<rparr>"
  by (simp add: sysTickReloadSet_def stcvr_write_def)

lemmas enter_simps = timer_idle_enter_def Let_def sysTickStop_eq sysTickStart_eq
  sysTickReloadSet_eq sysTickCurrentGet_def

lemma timer_driver_tickless_1000:
  "timer_driver tickless_build (995, 990, 983) (boot_state 1000) = Inr tickless_1000"
  by (simp add: timer_driver_def sysTickTicklessIdleInit_def tickless_build_def
      boot_state_def tickless_1000_def sysTickReloadSet_eq sysTickStop_eq
      sysTickReloadGet_def sysTickCurrentGet_def hw_run_def stcsr_or_def stcsr_read_def
      stcsr_write_def stcsr_bits Let_def)

lemma timer_driver_tickless_4M:
  "timer_driver tickless_build (3999995, 3999990, 3999983) (boot_state 4000000)
     = Inr tickless_4M"
  by (simp add: timer_driver_def sysTickTicklessIdleInit_def tickless_build_def
      boot_state_def tickless_4M_def sysTickReloadSet_eq sysTickStop_eq
      sysTickReloadGet_def sysTickCurrentGet_def hw_run_def stcsr_or_def stcsr_read_def
      stcsr_write_def stcsr_bits Let_def)

lemma timer_driver_periodic_1000:
  "timer_driver periodic_build (0, 0, 0) (boot_state 1000) = Inr periodic_1000"
  by (simp add: timer_driver_def periodic_build_def boot_state_def periodic_1000_def
      sysTickReloadSet_eq stcsr_write_def stcsr_bits Let_def)

lemma timer_driver_periodic_16M:
  "timer_driver periodic_build (0, 0, 0) (boot_state 0x1000000) = Inr periodic_16M"
  by (simp add: timer_driver_def periodic_build_def boot_state_def periodic_16M_def
      sysTickReloadSet_eq stcsr_write_def stcsr_bits Let_def)

lemma and_not_absorb: "w AND NOT c = w" if "w AND c = 0" for w c :: "'a :: len word"
  using that by (auto simp add: bit_eq_iff bit_simps)

lemma mask_clear_part: "(w AND NOT (e OR t OR c)) AND c = (0 :: 'a :: len word)"
  by (auto simp add: bit_eq_iff bit_simps)

lemma countflag_get_clear:
  "stcsr s AND STCSR_COUNTFLAG = 0 \<Longrightarrow> countflag_get s = (False, s)"
  by (simp add: countflag_get_def stcsr_read_def and_not_absorb)

lemma countflag_after_stop: "stcsr (sysTickStop s) AND STCSR_COUNTFLAG = 0"
  unfolding stcsr_sysTickStop by (rule mask_clear_part)

lemma SysPowerSaveIdleExit_periodic:
  "timerMode s = TIMER_MODE_PERIODIC \<Longrightarrow> SysPowerSaveIdleExit cfg n s = Inr s"
  by (simp add: SysPowerSaveIdleExit_def timer_idle_exit_def)

lemma timer_mode_cases: "m \<noteq> TIMER_MODE_ONE_SHOT \<longleftrightarrow> m = TIMER_MODE_PERIODIC"
  by (cases m) simp_all

lemmas handler_simps = timer_int_handler_def Let_def sysTickStop_eq sysTickStart_eq
  sysTickReloadSet_eq nano_isr_stack_push_TICK_EVENT_def SysPowerSaveIdleExit_periodic
  timer_mode_cases

subsection \<open>Clamping of the idle request\<close>

text \<open>
  Claim C5. A request of -1 and every request above \<open>maxSysTicks\<close> (compared as the C
  code compares them, unsigned) leave the same state: \<open>idleOrigTicks\<close> is
  \<open>maxSysTicks - 1\<close> and \<open>idleOrigCount\<close> is the skew-adjusted count plus
  \<open>maxLoadValue - defaultLoadVal\<close>. With \<open>maxSysTicks\<close> within the 24 bits that
  \<^verbatim>\<open>sysTickTicklessIdleInit\<close> gives it, \<open>maxSysTicks + 5\<close> is such a request.
\<close>

theorem timer_idle_enter_clamps:
  "(ticks = - 1 \<or> maxSysTicks s < ticks \<longrightarrow>
      timer_idle_enter ticks s = timer_idle_enter (- 1) s
      \<and> idleOrigTicks (timer_idle_enter ticks s) = maxSysTicks s - 1
      \<and> idleOrigCount (timer_idle_enter ticks s)
          = (stcvr s - timerIdleSkew s) + (maxLoadValue s - defaultLoadVal s))
   \<and> (maxSysTicks s \<le> 0xFFFFFF \<longrightarrow>
        timer_idle_enter (maxSysTicks s + 5) s = timer_idle_enter (- 1) s)"
proof -
  have clamp: "timer_idle_enter t s = timer_idle_enter (- 1) s
      \<and> idleOrigTicks (timer_idle_enter t s) = maxSysTicks s - 1
      \<and> idleOrigCount (timer_idle_enter t s)
          = (stcvr s - timerIdleSkew s) + (maxLoadValue s - defaultLoadVal s)"
    if "t = - 1 \<or> maxSysTicks s < t" for t
    using that by (auto simp add: enter_simps)
  have "maxSysTicks s < maxSysTicks s + 5" if "maxSysTicks s \<le> 0xFFFFFF"
  proof -
    from that have "unat (maxSysTicks s) \<le> 0xFFFFFF"
      by (simp add: word_le_nat_alt)
    then have "unat (maxSysTicks s + 5) = unat (maxSysTicks s) + 5"
      by (simp add: unat_word_ariths)
    then show ?thesis
      by (simp add: word_less_nat_alt)
  qed
  with clamp show ?thesis by blast
qed

theorem timer_idle_enter_clamps_witness:
  "((20000 :: u32) = - 1 \<or> maxSysTicks tickless_1000 < 20000)
   \<and> maxSysTicks tickless_1000 \<le> 0xFFFFFF
   \<and> timer_idle_enter 20000 tickless_1000 = timer_idle_enter (- 1) tickless_1000
   \<and> timer_idle_enter 16799 tickless_1000 = timer_idle_enter (- 1) tickless_1000
   \<and> idleOrigTicks (timer_idle_enter 20000 tickless_1000) = 16793
   \<and> idleOrigCount (timer_idle_enter 20000 tickless_1000) = 16776195"
  using timer_idle_enter_clamps [of 20000 tickless_1000]
  by (simp add: tickless_1000_def enter_simps)

text \<open>
  Claim C6, amended. \<^verbatim>\<open>_timer_idle_enter\<close> has no error result (it is a total function
  of its argument and the state). For every request other than 0, and \<open>maxSysTicks\<close>
  at least 1, the stored \<open>idleOrigTicks\<close> lies in \<open>[0, maxSysTicks - 1]\<close>.
\<close>

theorem timer_idle_enter_range:
  "ticks \<noteq> 0 \<Longrightarrow> maxSysTicks s \<noteq> 0 \<Longrightarrow>
     idleOrigTicks (timer_idle_enter ticks s) \<le> maxSysTicks s - 1
     \<and> unat (idleOrigTicks (timer_idle_enter ticks s)) < unat (maxSysTicks s)"
proof -
  assume t: "ticks \<noteq> 0" and m: "maxSysTicks s \<noteq> 0"
  from m have m1: "unat (maxSysTicks s - 1) = unat (maxSysTicks s) - 1"
    and m0: "0 < unat (maxSysTicks s)"
    by (simp_all add: unat_minus_one unat_gt_0)
  from t have t1: "unat (ticks - 1) = unat ticks - 1" and t0: "0 < unat ticks"
    by (simp_all add: unat_minus_one unat_gt_0)
  show ?thesis
  proof (cases "ticks = - 1 \<or> ticks > maxSysTicks s")
    case True
    then have "idleOrigTicks (timer_idle_enter ticks s) = maxSysTicks s - 1"
      by (auto simp add: enter_simps)
    with m1 m0 show ?thesis by (simp add: word_le_nat_alt)
  next
    case False
    then have le: "unat ticks \<le> unat (maxSysTicks s)"
      by (simp add: word_less_nat_alt)
    from False have "idleOrigTicks (timer_idle_enter ticks s) = ticks - 1"
      by (auto simp add: enter_simps)
    with le t1 t0 m1 show ?thesis by (auto simp add: word_le_nat_alt)
  qed
qed

theorem timer_idle_enter_range_witness:
  "(10 :: u32) \<noteq> 0 \<and> maxSysTicks tickless_1000 \<noteq> 0
   \<and> idleOrigTicks (timer_idle_enter 10 tickless_1000) \<le> maxSysTicks tickless_1000 - 1
   \<and> unat (idleOrigTicks (timer_idle_enter 10 tickless_1000))
       < unat (maxSysTicks tickless_1000)"
  using timer_idle_enter_range [of 10 tickless_1000]
  by (simp add: tickless_1000_def enter_simps)

text \<open>
  Claim C6 as stated fails for a request of 0 ticks: \<^verbatim>\<open>ticks - 1\<close> wraps, and the
  stored value is \<open>0xFFFFFFFF\<close>, above \<open>maxSysTicks - 1 = 16793\<close>.
\<close>

theorem timer_idle_enter_zero_counterexample:
  "maxSysTicks tickless_1000 = 16794
   \<and> idleOrigTicks (timer_idle_enter 0 tickless_1000) = 0xFFFFFFFF
   \<and> \<not> idleOrigTicks (timer_idle_enter 0 tickless_1000) \<le> maxSysTicks tickless_1000 - 1"
  by (simp add: enter_simps tickless_1000_def word_order.extremum_unique)

subsection \<open>Reading the clock\<close>

text \<open>
  Claim C8. While the counter counts down normally (the count is at most the reload
  value), \<^verbatim>\<open>timer_read\<close> is the accumulated total plus the cycles since the last
  reload, \<open>strvr - stcvr\<close>, in 32-bit arithmetic. It is a function of the state alone and
  stores nothing.
\<close>

theorem timer_read_formula:
  "stcvr s \<le> strvr s \<Longrightarrow>
     timer_read s = accumulatedCount s + (strvr s - stcvr s)
     \<and> unat (timer_read s)
         = (unat (accumulatedCount s) + (unat (strvr s) - unat (stcvr s))) mod 2 ^ 32"
  by (simp add: timer_read_def unat_word_ariths unat_sub word_le_nat_alt)

theorem timer_read_formula_witness:
  "stcvr (hw_run 400 False tickless_1000) \<le> strvr (hw_run 400 False tickless_1000)
   \<and> timer_read (hw_run 400 False tickless_1000) = 599"
  using timer_read_formula [of "hw_run 400 False tickless_1000"]
  by (simp add: hw_run_def tickless_1000_def)

subsection \<open>A spurious idle exit\<close>

text \<open>
  Claim C9. In periodic mode \<^verbatim>\<open>_timer_idle_exit\<close> returns at once and the whole state
  is as it was; a second call right after it is again no operation.
\<close>

theorem timer_idle_exit_periodic_noop:
  "timerMode s = TIMER_MODE_PERIODIC \<Longrightarrow>
     timer_idle_exit s = Inr s
     \<and> (case timer_idle_exit s of Inl e \<Rightarrow> Inl e | Inr s' \<Rightarrow> timer_idle_exit s') = Inr s"
  by (simp add: timer_idle_exit_def)

theorem timer_idle_exit_periodic_noop_witness:
  "timerMode tickless_1000 = TIMER_MODE_PERIODIC
   \<and> timer_idle_exit tickless_1000 = Inr tickless_1000
   \<and> (case timer_idle_exit tickless_1000 of
         Inl e \<Rightarrow> Inl e | Inr s' \<Rightarrow> timer_idle_exit s') = Inr tickless_1000"
  using timer_idle_exit_periodic_noop [of tickless_1000]
  by (simp add: tickless_1000_def)

subsection \<open>Stopping the counter\<close>

text \<open>
  Claim C10, amended. \<^verbatim>\<open>sysTickStop\<close> changes the control and status register only:
  enable and tickint are cleared, the countflag is cleared too (by the read of the
  register), and every other bit, the clock source among them, is as it was. The reload
  register, the count register and the driver's variables are untouched. Stopping twice
  is stopping once, and \<^verbatim>\<open>timer_disable\<close> does exactly what \<^verbatim>\<open>sysTickStop\<close> does,
  the interrupt mask being put back.
\<close>

theorem sysTickStop_frame:
  "sysTickStop s = s\<lparr>stcsr := stcsr (sysTickStop s)\<rparr>
   \<and> stcsr (sysTickStop s) AND (STCSR_ENABLE OR STCSR_TICKINT OR STCSR_COUNTFLAG) = 0
   \<and> stcsr (sysTickStop s) AND NOT (STCSR_ENABLE OR STCSR_TICKINT OR STCSR_COUNTFLAG)
       = stcsr s AND NOT (STCSR_ENABLE OR STCSR_TICKINT OR STCSR_COUNTFLAG)
   \<and> stcsr (sysTickStop s) AND STCSR_CLKSOURCE = stcsr s AND STCSR_CLKSOURCE
   \<and> sysTickStop (sysTickStop s) = sysTickStop s
   \<and> timer_disable s = sysTickStop s
   \<and> timer_disable (timer_disable s) = timer_disable s"
proof -
  have a: "sysTickStop s = s\<lparr>stcsr := stcsr (sysTickStop s)\<rparr>"
    by (simp add: sysTickStop_eq)
  have b: "stcsr (sysTickStop s) AND (STCSR_ENABLE OR STCSR_TICKINT OR STCSR_COUNTFLAG) = 0"
    unfolding stcsr_sysTickStop by (rule mask_clear)
  have c: "stcsr (sysTickStop s) AND NOT (STCSR_ENABLE OR STCSR_TICKINT OR STCSR_COUNTFLAG)
       = stcsr s AND NOT (STCSR_ENABLE OR STCSR_TICKINT OR STCSR_COUNTFLAG)"
    unfolding stcsr_sysTickStop by (rule mask_idem)
  have d: "stcsr (sysTickStop s) AND STCSR_CLKSOURCE = stcsr s AND STCSR_CLKSOURCE"
    unfolding stcsr_sysTickStop by (rule clksource_kept)
  have e: "sysTickStop (sysTickStop t) = sysTickStop t" for t
    by (simp add: sysTickStop_eq)
  have f: "timer_disable t = sysTickStop t" for t
    by (simp add: timer_disable_def sysTickStop_eq)
  from a b c d e f show ?thesis by simp
qed

text \<open>
  Claim C10 as stated fails when the counter has wrapped since the register was last
  read: in the running state after configuration the register reads \<open>0x10007\<close> once the
  counter has wrapped, and \<open>0x4\<close> after \<^verbatim>\<open>timer_disable\<close>. Bit 16 has changed.
\<close>

theorem sysTickStop_countflag_counterexample:
  "stcsr (hw_run 999 True tickless_1000) = 0x10007
   \<and> stcsr (timer_disable (hw_run 999 True tickless_1000)) = 0x4"
  by (simp add: timer_disable_def sysTickStop_eq hw_run_def tickless_1000_def stcsr_bits)

subsection \<open>The tick interrupt\<close>

text \<open>
  Claim C4. In the build with power management and tickless idle, every run of the
  interrupt handler returns, and: if \<open>idleMode\<close> is \<open>IDLE_TICKLESS\<close> it reports
  \<open>idleOrigTicks + 1\<close> elapsed ticks, clears \<open>idleMode\<close> and pushes exactly one tick
  event; otherwise it adds one to the elapsed-tick count and pushes a tick event only
  when that count was zero before (the step from zero to one).
\<close>

theorem handler_announce:
  assumes "CONFIG_ADVANCED_POWER_MANAGEMENT cfg" and "CONFIG_TICKLESS_IDLE cfg"
  shows "\<exists>s'. timer_int_handler cfg s = Inr s'
    \<and> (if idleMode s = IDLE_TICKLESS
        then SysIdleElapsedTicks s' = idleOrigTicks s + 1
           \<and> idleMode s' = IDLE_NOT_TICKLESS
           \<and> K_Args s' = Suc (K_Args s)
        else SysIdleElapsedTicks s' = SysIdleElapsedTicks s + 1
           \<and> idleMode s' = idleMode s
           \<and> K_Args s' = (if SysIdleElapsedTicks s = 0 then Suc (K_Args s) else K_Args s))"
proof (cases "timerMode s")
  case TIMER_MODE_PERIODIC
  with assms show ?thesis
    by (cases "idleMode s = IDLE_TICKLESS"; cases "NanoIdleVal s = 0"; cases "SysIdleElapsedTicks s = 0")
       (simp_all add: handler_simps)
next
  case TIMER_MODE_ONE_SHOT
  with assms show ?thesis
    by (cases "idleMode s = IDLE_TICKLESS"; cases "NanoIdleVal s = 0"; cases "SysIdleElapsedTicks s = 0")
       (simp_all add: handler_simps)
qed

theorem handler_announce_witness:
  "CONFIG_ADVANCED_POWER_MANAGEMENT tickless_build \<and> CONFIG_TICKLESS_IDLE tickless_build
   \<and> (\<exists>s'. timer_int_handler tickless_build (hw_run 0 True (timer_idle_enter 10 tickless_1000)) = Inr s'
         \<and> SysIdleElapsedTicks s' = 10 \<and> idleMode s' = IDLE_NOT_TICKLESS \<and> K_Args s' = 1)
   \<and> (\<exists>s'. timer_int_handler tickless_build (hw_run 999 True tickless_1000) = Inr s'
         \<and> SysIdleElapsedTicks s' = 1 \<and> idleMode s' = IDLE_NOT_TICKLESS \<and> K_Args s' = 1)"
  using handler_announce [of tickless_build "hw_run 0 True (timer_idle_enter 10 tickless_1000)"]
    handler_announce [of tickless_build "hw_run 999 True tickless_1000"]
  by (simp add: tickless_build_def tickless_1000_def hw_run_def enter_simps)

text \<open>
  Claim C1. For \<open>1 \<le> n \<le> maxSysTicks - 1\<close>, \<^verbatim>\<open>_timer_idle_enter(n)\<close> followed by the
  natural expiry of the programmed interval (the count reaches 0 and the wrap flag is
  set) makes the interrupt handler report exactly \<open>n\<close> elapsed ticks and return to
  periodic mode with the reload register equal to \<open>defaultLoadVal\<close>.
\<close>

theorem idle_round_trip:
  assumes "CONFIG_ADVANCED_POWER_MANAGEMENT cfg" and "CONFIG_TICKLESS_IDLE cfg"
    and "1 \<le> unat n" and "unat n + 1 \<le> unat (maxSysTicks s)"
  shows "\<exists>s'. timer_int_handler cfg (hw_run 0 True (timer_idle_enter n s)) = Inr s'
    \<and> SysIdleElapsedTicks s' = n
    \<and> timerMode s' = TIMER_MODE_PERIODIC
    \<and> strvr s' = defaultLoadVal s"
proof -
  from assms(4) have lt: "unat n < unat (maxSysTicks s)" by simp
  then have le: "\<not> maxSysTicks s < n"
    by (simp add: word_less_nat_alt)
  have "unat (maxSysTicks s) \<le> unat (- 1 :: u32)"
    using word_n1_ge [of "maxSysTicks s"] by (simp only: word_le_nat_alt)
  with lt have n1: "n \<noteq> - 1"
    by auto
  let ?e = "hw_run 0 True (timer_idle_enter n s)"
  from le n1 have e: "timerMode ?e = TIMER_MODE_ONE_SHOT" "idleMode ?e = IDLE_TICKLESS"
    "idleOrigTicks ?e = n - 1" "defaultLoadVal ?e = defaultLoadVal s"
    by (simp_all add: hw_run_def enter_simps)
  show ?thesis
    using assms(1,2) e
    by (cases "NanoIdleVal ?e = 0") (simp_all add: handler_simps)
qed

theorem idle_round_trip_witness:
  "CONFIG_ADVANCED_POWER_MANAGEMENT tickless_build \<and> CONFIG_TICKLESS_IDLE tickless_build
   \<and> 1 \<le> unat (10 :: u32) \<and> unat (10 :: u32) + 1 \<le> unat (maxSysTicks tickless_1000)
   \<and> (\<exists>s'. timer_int_handler tickless_build (hw_run 0 True (timer_idle_enter 10 tickless_1000)) = Inr s'
         \<and> SysIdleElapsedTicks s' = 10 \<and> timerMode s' = TIMER_MODE_PERIODIC \<and> strvr s' = 999)"
  using idle_round_trip [of tickless_build 10 tickless_1000]
  by (simp add: tickless_build_def tickless_1000_def)

subsection \<open>An idle interval interrupted early\<close>

lemma div_mod_3:
  fixes d r :: u32
  assumes "d \<le> 0xFFFFFF" "r < d"
  shows "(3 * d + r) mod d = r" "(3 * d + r) div d = 3"
proof -
  from assms have d: "unat d \<le> 0xFFFFFF" and r: "unat r < unat d"
    by (simp_all add: word_le_nat_alt word_less_nat_alt)
  have "unat (3 * d) = (3 * unat d) mod 2 ^ 32"
    by (simp add: unat_word_ariths)
  with d have u3: "unat (3 * d) = 3 * unat d"
    by simp
  have "unat (3 * d + r) = (unat (3 * d) + unat r) mod 2 ^ 32"
    by (simp add: unat_word_ariths)
  with u3 d r have u: "unat (3 * d + r) = 3 * unat d + unat r"
    by simp
  from r have "(3 * unat d + unat r) mod unat d = unat r"
    by simp
  then have m: "unat ((3 * d + r) mod d) = unat r"
    by (simp only: unat_mod u)
  from r have "(3 * unat d + unat r) div unat d = 3"
    by simp
  then have q: "unat ((3 * d + r) div d) = unat (3 :: u32)"
    by (simp only: unat_div u) simp
  from m show "(3 * d + r) mod d = r"
    by (simp only: word_unat_eq_iff)
  from q show "(3 * d + r) div d = 3"
    by (simp only: word_unat_eq_iff)
qed

text \<open>
  Claim C2, amended. After \<^verbatim>\<open>_timer_idle_enter(10)\<close>, when \<^verbatim>\<open>_timer_idle_exit\<close> runs
  at a count other than zero with \<open>elapsed = idleOrigCount - count = 3 * defaultLoadVal
  + r\<close> and \<open>0 < r < defaultLoadVal\<close> (the reload value fitting the 24-bit register), it
  reports exactly 3 elapsed ticks, pushes one tick event and stays in one-shot mode. The
  reload register is set to \<open>r\<close> when \<open>count > r\<close>, which is the guard of the code, and
  keeps the idle count programmed at entry otherwise.
\<close>

theorem idle_exit_early:
  assumes "defaultLoadVal s \<le> 0xFFFFFF"
    and "count \<noteq> 0" and "r \<noteq> 0" and "r < defaultLoadVal s"
    and "idleOrigCount (timer_idle_enter 10 s) - count = 3 * defaultLoadVal s + r"
  shows "\<exists>s'. timer_idle_exit (hw_run count False (timer_idle_enter 10 s)) = Inr s'
    \<and> SysIdleElapsedTicks s' = 3
    \<and> K_Args s' = Suc (K_Args s)
    \<and> timerMode s' = TIMER_MODE_ONE_SHOT
    \<and> strvr s' = (if r < count then r else idleOrigCount (timer_idle_enter 10 s))"
proof -
  let ?e = "hw_run count False (timer_idle_enter 10 s)"
  let ?s1 = "sysTickStop ?e"
  have e: "timerMode ?e = TIMER_MODE_ONE_SHOT"
    by (simp add: hw_run_def enter_simps)
  have s1: "stcvr ?s1 = count"
    "defaultLoadVal ?s1 = defaultLoadVal s"
    "idleOrigCount ?s1 = idleOrigCount (timer_idle_enter 10 s)"
    "K_Args ?s1 = K_Args s" "timerMode ?s1 = TIMER_MODE_ONE_SHOT"
    "strvr ?s1 = idleOrigCount (timer_idle_enter 10 s)"
    by (simp_all add: hw_run_def enter_simps)
  have cf: "countflag_get ?s1 = (False, ?s1)"
    by (rule countflag_get_clear) (rule countflag_after_stop)
  from assms(3,4) have d0: "defaultLoadVal s \<noteq> 0"
    by auto
  note dm = div_mod_3 [OF assms(1) assms(4)]
  define t where "t = ?s1"
  have exit_eq: "timer_idle_exit ?e =
      (let elapsed = idleOrigCount t - count;
           remaining = elapsed mod defaultLoadVal t;
           s3 = (if remaining = 0 then
                   (sysTickReloadSet (defaultLoadVal t) t)\<lparr>timerMode := TIMER_MODE_PERIODIC\<rparr>
                 else if count > remaining then sysTickReloadSet remaining t
                 else t);
           s4 = s3\<lparr>SysIdleElapsedTicks := elapsed div defaultLoadVal s3\<rparr>;
           s5 = (if SysIdleElapsedTicks s4 \<noteq> 0
                 then nano_isr_stack_push_TICK_EVENT s4 else s4)
       in Inr (sysTickStart (s5\<lparr>idleMode := IDLE_NOT_TICKLESS\<rparr>)))"
    using e cf d0 assms(2) s1(1,2) unfolding t_def [symmetric]
    by (simp add: timer_idle_exit_def sysTickCurrentGet_def t_def [symmetric] Let_def)
  have t: "stcvr t = count" "defaultLoadVal t = defaultLoadVal s"
    "idleOrigCount t - count = 3 * defaultLoadVal s + r"
    "K_Args t = K_Args s" "timerMode t = TIMER_MODE_ONE_SHOT"
    "strvr t = idleOrigCount (timer_idle_enter 10 s)"
    using s1 assms(5) by (simp_all add: t_def)
  show ?thesis
    unfolding exit_eq
    using t dm assms(3)
    by (simp add: Let_def sysTickReloadSet_eq sysTickStart_eq nano_isr_stack_push_TICK_EVENT_def)
qed

theorem idle_exit_early_witness:
  "defaultLoadVal (hw_run 497 False tickless_1000) \<le> 0xFFFFFF
   \<and> (5979 :: u32) \<noteq> 0 \<and> (500 :: u32) \<noteq> 0
   \<and> 500 < defaultLoadVal (hw_run 497 False tickless_1000)
   \<and> idleOrigCount (timer_idle_enter 10 (hw_run 497 False tickless_1000)) - 5979
        = 3 * defaultLoadVal (hw_run 497 False tickless_1000) + 500
   \<and> (\<exists>s'. timer_idle_exit (hw_run 5979 False (timer_idle_enter 10 (hw_run 497 False tickless_1000))) = Inr s'
        \<and> SysIdleElapsedTicks s' = 3 \<and> K_Args s' = 1
        \<and> timerMode s' = TIMER_MODE_ONE_SHOT \<and> strvr s' = 500)"
proof -
  have h: "defaultLoadVal (hw_run 497 False tickless_1000) \<le> 0xFFFFFF"
    "(5979 :: u32) \<noteq> 0" "(500 :: u32) \<noteq> 0"
    "500 < defaultLoadVal (hw_run 497 False tickless_1000)"
    "idleOrigCount (timer_idle_enter 10 (hw_run 497 False tickless_1000)) - 5979
        = 3 * defaultLoadVal (hw_run 497 False tickless_1000) + 500"
    by (simp_all add: tickless_1000_def hw_run_def enter_simps)
  have k: "K_Args (hw_run 497 False tickless_1000) = 0"
    by (simp add: tickless_1000_def hw_run_def)
  from idle_exit_early [OF h] h k show ?thesis
    by simp
qed

lemma timer_idle_enter_4M:
  "timer_idle_enter 10 (hw_run 2000000 False tickless_4M) = idle_4M"
  by (simp add: tickless_4M_def idle_4M_def hw_run_def enter_simps stcsr_bits)

lemma timer_idle_exit_4M:
  "timer_idle_exit (hw_run 499988 False idle_4M)
     = Inr (idle_4M\<lparr>stcvr := 499988, SysIdleElapsedTicks := 3, K_Args := 1,
                   idleMode := IDLE_NOT_TICKLESS\<rparr>)"
proof -
  let ?e = "hw_run 499988 False idle_4M"
  have s1: "sysTickStop ?e = idle_4M\<lparr>stcvr := 499988, stcsr := 4\<rparr>"
    by (simp add: idle_4M_def hw_run_def sysTickStop_eq stcsr_bits)
  have cf: "countflag_get (idle_4M\<lparr>stcvr := 499988, stcsr := 4\<rparr>)
              = (False, idle_4M\<lparr>stcvr := 499988, stcsr := 4\<rparr>)"
    by (simp add: countflag_get_def stcsr_read_def stcsr_bits)
  have m: "timerMode ?e \<noteq> TIMER_MODE_PERIODIC"
    by (simp add: idle_4M_def hw_run_def)
  have v: "stcvr (idle_4M\<lparr>stcvr := 499988, stcsr := 4\<rparr>) = 499988"
    "defaultLoadVal (idle_4M\<lparr>stcvr := 499988, stcsr := 4\<rparr>) = 3999999"
    "idleOrigCount (idle_4M\<lparr>stcvr := 499988, stcsr := 4\<rparr>) = 13999985"
    by (simp_all add: idle_4M_def)
  have fin: "sysTickStart (nano_isr_stack_push_TICK_EVENT
                (idle_4M\<lparr>stcvr := 499988, stcsr := 4, SysIdleElapsedTicks := 3\<rparr>)
                \<lparr>idleMode := IDLE_NOT_TICKLESS\<rparr>)
             = idle_4M\<lparr>stcvr := 499988, SysIdleElapsedTicks := 3, K_Args := 1,
                   idleMode := IDLE_NOT_TICKLESS\<rparr>"
    by (simp add: idle_4M_def sysTickStart_eq nano_isr_stack_push_TICK_EVENT_def stcsr_bits)
  show ?thesis
    using m
    by (simp add: timer_idle_exit_def s1 sysTickCurrentGet_def cf v Let_def fin)
qed

text \<open>
  Claim C2 as stated fails where the request of 10 ticks is clamped. With 4000000 cycles
  per tick the interval is three ticks long; interrupted at count 499988 the elapsed time
  is \<open>3 * 3999999 + 1500000\<close>, the count is not above the remainder, and the reload
  register keeps 13999985 instead of the remainder 1500000.
\<close>

theorem idle_exit_early_counterexample:
  "timer_driver tickless_build (3999995, 3999990, 3999983) (boot_state 4000000)
     = Inr tickless_4M
   \<and> timer_idle_enter 10 (hw_run 2000000 False tickless_4M) = idle_4M
   \<and> idleOrigCount idle_4M - 499988 = 3 * defaultLoadVal idle_4M + 1500000
   \<and> timer_idle_exit (hw_run 499988 False idle_4M)
       = Inr (idle_4M\<lparr>stcvr := 499988, SysIdleElapsedTicks := 3, K_Args := 1,
                     idleMode := IDLE_NOT_TICKLESS\<rparr>)
   \<and> strvr (idle_4M\<lparr>stcvr := 499988, SysIdleElapsedTicks := 3, K_Args := 1,
                  idleMode := IDLE_NOT_TICKLESS\<rparr>) = 13999985"
  by (simp add: timer_driver_tickless_4M timer_idle_enter_4M timer_idle_exit_4M)
     (simp add: idle_4M_def)

subsection \<open>Configuration\<close>

lemma sysTickTicklessIdleInit_regs:
  assumes "strvr s \<noteq> 0"
  shows "\<exists>s'. sysTickTicklessIdleInit obs s = Inr s' \<and> strvr s' = strvr s \<and> stcvr s' = 0"
  using assms
  by (cases obs)
     (simp add: sysTickTicklessIdleInit_def Let_def sysTickReloadGet_def sysTickReloadSet_eq
       sysTickStop_eq hw_run_def stcsr_or_def stcsr_read_def stcsr_write_def
       sysTickCurrentGet_def)

text \<open>
  Claim C7, amended. For every number of cycles per tick in \<open>[1, 2^24]\<close>, and other than 1
  when tickless idle is built in, \<^verbatim>\<open>timer_driver\<close> succeeds and leaves the reload
  register at that number minus one and the count register at 0. Above \<open>2^24\<close> it stops
  at the assertion and writes nothing.
\<close>

theorem timer_driver_bounds:
  "(1 \<le> sys_clock_hw_cycles_per_tick s \<and> sys_clock_hw_cycles_per_tick s \<le> 0x1000000
      \<and> (CONFIG_TICKLESS_IDLE cfg \<longrightarrow> sys_clock_hw_cycles_per_tick s \<noteq> 1) \<longrightarrow>
      (\<exists>s'. timer_driver cfg obs s = Inr s'
         \<and> strvr s' = sys_clock_hw_cycles_per_tick s - 1 \<and> stcvr s' = 0))
   \<and> (0x1000000 < sys_clock_hw_cycles_per_tick s \<longrightarrow>
        timer_driver cfg obs s = Inl AssertionFailed)"
proof -
  let ?c = "sys_clock_hw_cycles_per_tick s"
  let ?s1 = "sysTickReloadSet (?c - 1) s"
  have pb: "push_bit 24 (1 :: u32) = 0x1000000"
    by simp
  have big: "timer_driver cfg obs s = Inl AssertionFailed" if "0x1000000 < ?c"
  proof -
    from that have "\<not> ?c \<le> 0x1000000"
      by (simp only: not_le)
    then show ?thesis
      by (simp add: timer_driver_def pb Let_def)
  qed
  have ok: "\<exists>s'. timer_driver cfg obs s = Inr s' \<and> strvr s' = ?c - 1 \<and> stcvr s' = 0"
    if "1 \<le> ?c" and le: "?c \<le> 0x1000000" and t: "CONFIG_TICKLESS_IDLE cfg \<longrightarrow> ?c \<noteq> 1"
  proof (cases "CONFIG_TICKLESS_IDLE cfg")
    case False
    with le show ?thesis
      by (simp add: timer_driver_def pb Let_def sysTickReloadSet_eq stcsr_write_def)
  next
    case True
    with t have "?c - 1 \<noteq> 0" by simp
    then have "strvr ?s1 \<noteq> 0"
      by (simp add: sysTickReloadSet_eq)
    from sysTickTicklessIdleInit_regs [OF this, of obs]
    obtain s2 where s2: "sysTickTicklessIdleInit obs ?s1 = Inr s2" "strvr s2 = strvr ?s1"
      "stcvr s2 = 0"
      by blast
    have r: "strvr ?s1 = ?c - 1"
      by (simp add: sysTickReloadSet_eq)
    from True le s2 r show ?thesis
      by (simp add: timer_driver_def pb Let_def stcsr_write_def)
  qed
  from big ok show ?thesis by blast
qed

theorem timer_driver_bounds_witness:
  "1 \<le> sys_clock_hw_cycles_per_tick (boot_state 1000)
   \<and> sys_clock_hw_cycles_per_tick (boot_state 1000) \<le> 0x1000000
   \<and> sys_clock_hw_cycles_per_tick (boot_state 1000) \<noteq> 1
   \<and> (\<exists>s'. timer_driver tickless_build (995, 990, 983) (boot_state 1000) = Inr s'
         \<and> strvr s' = 999 \<and> stcvr s' = 0)
   \<and> 0x1000000 < sys_clock_hw_cycles_per_tick (boot_state 0x1000001)
   \<and> timer_driver tickless_build (995, 990, 983) (boot_state 0x1000001) = Inl AssertionFailed"
  using timer_driver_bounds [of "boot_state 1000" tickless_build "(995, 990, 983)"]
    timer_driver_bounds [of "boot_state 0x1000001" tickless_build "(995, 990, 983)"]
  by (simp add: boot_state_def)

text \<open>
  Claim C7 as stated fails for one cycle per tick in the tickless build: the reload value
  is 0 and \<^verbatim>\<open>sysTickTicklessIdleInit\<close> divides by it.
\<close>

theorem timer_driver_one_cycle_counterexample:
  "timer_driver tickless_build (0, 0, 0) (boot_state 1) = Inl DivideByZero"
  by (simp add: timer_driver_def sysTickTicklessIdleInit_def tickless_build_def
      boot_state_def sysTickReloadSet_eq sysTickReloadGet_def Let_def)

subsection \<open>The accumulator\<close>

lemma timer_idle_enter_keeps_accumulator:
  "accumulatedCount (timer_idle_enter n s) = accumulatedCount s"
  by (simp add: enter_simps)

lemma timer_idle_exit_keeps_accumulator:
  assumes "timer_idle_exit s = Inr s'"
  shows "accumulatedCount s' = accumulatedCount s"
proof (cases "timerMode s = TIMER_MODE_PERIODIC")
  case True
  with assms show ?thesis
    by (simp add: timer_idle_exit_def)
next
  case False
  let ?s1 = "sysTickStop s"
  have cf: "countflag_get ?s1 = (False, ?s1)"
    by (rule countflag_get_clear) (rule countflag_after_stop)
  from False assms cf show ?thesis
    by (auto simp add: timer_idle_exit_def Let_def sysTickCurrentGet_def sysTickReloadSet_eq
        sysTickStart_eq sysTickStop_eq nano_isr_stack_push_TICK_EVENT_def
        split: if_splits)
qed

lemma hw_run_keeps_accumulator: "accumulatedCount (hw_run c w s) = accumulatedCount s"
  by (simp add: hw_run_def)

lemma handler_adds:
  "\<exists>s'. timer_int_handler cfg s = Inr s'
     \<and> accumulatedCount s'
         = accumulatedCount s
           + (if CONFIG_ADVANCED_POWER_MANAGEMENT cfg \<and> CONFIG_TICKLESS_IDLE cfg
              then defaultLoadVal s * SysIdleElapsedTicks s'
              else sys_clock_hw_cycles_per_tick s)"
proof (cases "CONFIG_ADVANCED_POWER_MANAGEMENT cfg")
  case False
  then show ?thesis
    by (cases "nano_timer_list s")
       (auto simp add: timer_int_handler_def Let_def nano_isr_stack_push_TICK_EVENT_def
         split: prod.splits)
next
  case apm: True
  show ?thesis
  proof (cases "CONFIG_TICKLESS_IDLE cfg")
    case False
    with apm show ?thesis
      by (simp add: timer_int_handler_def Let_def nano_isr_stack_push_TICK_EVENT_def
          SysPowerSaveIdleExit_def)
  next
    case True
    with apm show ?thesis
      by (cases "timerMode s"; cases "idleMode s = IDLE_TICKLESS";
          cases "NanoIdleVal s = 0"; cases "SysIdleElapsedTicks s = 0")
         (simp_all add: handler_simps)
  qed
qed


lemma word_add_no_wrap_le:
  fixes a b :: u32
  assumes "unat a + unat b < 2 ^ 32"
  shows "a \<le> a + b"
proof -
  have "unat (a + b) = (unat a + unat b) mod 2 ^ 32"
    by (simp add: unat_word_ariths)
  with assms have "unat (a + b) = unat a + unat b"
    by simp
  then show ?thesis
    by (simp add: word_le_nat_alt)
qed

lemma word_add_mult_no_wrap_le:
  fixes a d e :: u32
  assumes "unat a + unat d * unat e < 2 ^ 32"
  shows "a \<le> a + d * e"
proof -
  have "unat (d * e) = (unat d * unat e) mod 2 ^ 32"
    by (simp add: unat_word_ariths)
  with assms have "unat (d * e) = unat d * unat e"
    by simp
  with assms show ?thesis
    by (simp add: word_add_no_wrap_le)
qed

lemma handler_monotone:
  assumes "timer_int_handler cfg s = Inr s'"
    and "unat (accumulatedCount s) + tick_cycles cfg s s' < 2 ^ 32"
  shows "accumulatedCount s \<le> accumulatedCount s'"
proof -
  from handler_adds [of cfg s] assms(1)
  have eq: "accumulatedCount s'
         = accumulatedCount s
           + (if CONFIG_ADVANCED_POWER_MANAGEMENT cfg \<and> CONFIG_TICKLESS_IDLE cfg
              then defaultLoadVal s * SysIdleElapsedTicks s'
              else sys_clock_hw_cycles_per_tick s)"
    by auto
  show ?thesis
  proof (cases "CONFIG_ADVANCED_POWER_MANAGEMENT cfg \<and> CONFIG_TICKLESS_IDLE cfg")
    case True
    with assms(2) have "unat (accumulatedCount s)
        + unat (defaultLoadVal s) * unat (SysIdleElapsedTicks s') < 2 ^ 32"
      by (simp add: tick_cycles_def)
    from word_add_mult_no_wrap_le [OF this] eq True show ?thesis
      by simp
  next
    case False
    with assms(2) have "unat (accumulatedCount s)
        + unat (sys_clock_hw_cycles_per_tick s) < 2 ^ 32"
      by (auto simp add: tick_cycles_def)
    from word_add_no_wrap_le [OF this] eq False show ?thesis
      by auto
  qed
qed

lemma run_monotone:
  assumes "no_overflow cfg evs s" and "run cfg evs s = Inr s'"
  shows "accumulatedCount s \<le> accumulatedCount s'"
  using assms
proof (induction evs arbitrary: s)
  case Nil
  then show ?case by simp
next
  case (Cons e evs)
  from Cons.prems(2) obtain s1 where s1: "step cfg e s = Inr s1" "run cfg evs s1 = Inr s'"
    by (auto split: sum.splits)
  with Cons.prems(1) have no: "no_overflow cfg evs s1"
    by simp
  have "accumulatedCount s \<le> accumulatedCount s1"
  proof (cases e)
    case Interrupt
    with s1(1) Cons.prems(1) show ?thesis
      by (auto intro: handler_monotone)
  next
    case (IdleEnter n)
    with s1(1) show ?thesis
      by (auto simp add: timer_idle_enter_keeps_accumulator)
  next
    case IdleExit
    with s1(1) show ?thesis
      by (auto simp add: timer_idle_exit_keeps_accumulator)
  next
    case (Count c w)
    with s1(1) show ?thesis
      by (auto simp add: hw_run_keeps_accumulator)
  qed
  also from Cons.IH [OF no s1(2)] have "accumulatedCount s1 \<le> accumulatedCount s'" .
  finally show ?case .
qed

lemma handler_periodic:
  assumes "\<not> (CONFIG_ADVANCED_POWER_MANAGEMENT cfg \<and> CONFIG_TICKLESS_IDLE cfg)"
  shows "\<exists>s'. timer_int_handler cfg s = Inr s'
    \<and> accumulatedCount s' = accumulatedCount s + sys_clock_hw_cycles_per_tick s
    \<and> K_Args s' = (if CONFIG_ADVANCED_POWER_MANAGEMENT cfg \<or> CONFIG_MICROKERNEL cfg
                   then Suc (K_Args s) else K_Args s)
    \<and> nano_ticks s' = (if CONFIG_ADVANCED_POWER_MANAGEMENT cfg \<or> CONFIG_MICROKERNEL cfg
                       then nano_ticks s else nano_ticks s + 1)
    \<and> sys_clock_hw_cycles_per_tick s' = sys_clock_hw_cycles_per_tick s
    \<and> strvr s' = strvr s \<and> stcvr s' = stcvr s"
proof (cases "CONFIG_ADVANCED_POWER_MANAGEMENT cfg")
  case True
  with assms show ?thesis
    by (simp add: timer_int_handler_def Let_def nano_isr_stack_push_TICK_EVENT_def
        SysPowerSaveIdleExit_def)
next
  case False
  then show ?thesis
    by (cases "nano_timer_list s")
       (auto simp add: timer_int_handler_def Let_def nano_isr_stack_push_TICK_EVENT_def
         split: prod.splits)
qed

lemma natural_interrupts_periodic:
  assumes "\<not> (CONFIG_ADVANCED_POWER_MANAGEMENT cfg \<and> CONFIG_TICKLESS_IDLE cfg)"
  shows "\<exists>s'. natural_interrupts cfg k s = Inr s'
    \<and> accumulatedCount s'
        = accumulatedCount s + of_nat k * sys_clock_hw_cycles_per_tick s
    \<and> K_Args s' = (if CONFIG_ADVANCED_POWER_MANAGEMENT cfg \<or> CONFIG_MICROKERNEL cfg
                   then K_Args s + k else K_Args s)
    \<and> nano_ticks s' = (if CONFIG_ADVANCED_POWER_MANAGEMENT cfg \<or> CONFIG_MICROKERNEL cfg
                       then nano_ticks s else nano_ticks s + of_nat k)
    \<and> sys_clock_hw_cycles_per_tick s' = sys_clock_hw_cycles_per_tick s
    \<and> strvr s' = strvr s
    \<and> stcvr s' = (if k = 0 then stcvr s else strvr s)"
proof (induction k arbitrary: s)
  case 0
  show ?case by simp
next
  case (Suc k)
  let ?h = "hw_run (strvr s) True s"
  let ?m = "CONFIG_ADVANCED_POWER_MANAGEMENT cfg \<or> CONFIG_MICROKERNEL cfg"
  from handler_periodic [OF assms, of ?h]
  obtain s1 where s1: "timer_int_handler cfg ?h = Inr s1"
    "accumulatedCount s1 = accumulatedCount s + sys_clock_hw_cycles_per_tick s"
    "K_Args s1 = (if ?m then Suc (K_Args s) else K_Args s)"
    "nano_ticks s1 = (if ?m then nano_ticks s else nano_ticks s + 1)"
    "sys_clock_hw_cycles_per_tick s1 = sys_clock_hw_cycles_per_tick s"
    "strvr s1 = strvr s" "stcvr s1 = strvr s"
    by (auto simp add: hw_run_def)
  from Suc.IH [of s1]
  obtain s' where s': "natural_interrupts cfg k s1 = Inr s'"
    "accumulatedCount s' = accumulatedCount s1 + of_nat k * sys_clock_hw_cycles_per_tick s1"
    "K_Args s' = (if ?m then K_Args s1 + k else K_Args s1)"
    "nano_ticks s' = (if ?m then nano_ticks s1 else nano_ticks s1 + of_nat k)"
    "sys_clock_hw_cycles_per_tick s' = sys_clock_hw_cycles_per_tick s1"
    "strvr s' = strvr s1"
    "stcvr s' = (if k = 0 then stcvr s1 else strvr s1)"
    by blast
  from s1 s' show ?case
    by (simp add: algebra_simps)
qed


lemma unat_add_mult_no_wrap:
  fixes a c :: u32
  assumes "unat a + k * unat c < 2 ^ 32"
  shows "unat (a + of_nat k * c) = unat a + k * unat c"
proof -
  have "a + of_nat k * c = of_nat (unat a + k * unat c)"
    by simp
  then have "unat (a + of_nat k * c) = (unat a + k * unat c) mod 2 ^ 32"
    by (simp only: unat_of_nat) simp
  with assms show ?thesis
    by simp
qed

lemma timer_read_after_ticks:
  fixes s s' :: systick_state
  assumes acc: "accumulatedCount s'
        = accumulatedCount s + of_nat k * sys_clock_hw_cycles_per_tick s"
    and rd: "timer_read s' = accumulatedCount s'"
    and k: "0 < k" and le: "stcvr s \<le> strvr s"
    and lt: "strvr s < sys_clock_hw_cycles_per_tick s"
    and nw: "unat (accumulatedCount s) + k * unat (sys_clock_hw_cycles_per_tick s) < 2 ^ 32"
  shows "timer_read s \<le> timer_read s'"
proof -
  let ?a = "accumulatedCount s" and ?c = "sys_clock_hw_cycles_per_tick s"
  from unat_add_mult_no_wrap [OF nw] acc
  have u: "unat (accumulatedCount s') = unat ?a + k * unat ?c"
    by simp
  from le have d: "unat (strvr s - stcvr s) = unat (strvr s) - unat (stcvr s)"
    by (simp add: unat_sub)
  from lt have "unat (strvr s) < unat ?c"
    by (simp add: word_less_nat_alt)
  moreover from k have "unat ?c \<le> k * unat ?c"
    by simp
  ultimately have b: "unat (strvr s) - unat (stcvr s) \<le> k * unat ?c"
    by linarith
  have "unat (timer_read s) = (unat ?a + unat (strvr s - stcvr s)) mod 2 ^ 32"
    by (simp add: timer_read_def unat_word_ariths)
  with d b nw have "unat (timer_read s) = unat ?a + (unat (strvr s) - unat (stcvr s))"
    by simp
  with b u rd show ?thesis
    by (simp add: word_le_nat_alt)
qed

text \<open>
  Claim C3, amended. The accumulator \<open>accumulatedCount\<close>, to which \<^verbatim>\<open>timer_read\<close> adds
  \<open>strvr - stcvr\<close>, is changed by the tick interrupt handler alone: idle entry and idle
  exit leave it as it is, and every run of the handler adds to it, modulo \<open>2^32\<close>, the
  cycles per tick, or on the tickless path the reload value times the elapsed ticks it
  reports. So across any sequence of tick interrupts, idle entries, idle exits and
  counting the accumulator does not decrease as long as no addition overflows 32 bits.
  On every path but the tickless one, \<open>k\<close> natural tick interrupts add exactly \<open>k\<close>
  times the cycles per tick, modulo \<open>2^32\<close>, and announce the tick \<open>k\<close> times: as
  \<open>k\<close> tick events pushed in a microkernel system, as \<open>k\<close> steps of \<^verbatim>\<open>_nano_ticks\<close>
  in a nanokernel-only system. Right after such an interrupt, the counter just reloaded,
  \<^verbatim>\<open>timer_read\<close> equals the accumulator, and it is not below \<^verbatim>\<open>timer_read\<close> of the
  state the \<open>k\<close> interrupts started from, if the counter counted normally there below
  the configured period and the total does not overflow.
\<close>

theorem accumulator_discipline:
  "accumulatedCount (timer_idle_enter n s) = accumulatedCount s
   \<and> (\<forall>s'. timer_idle_exit s = Inr s' \<longrightarrow> accumulatedCount s' = accumulatedCount s)
   \<and> (\<exists>s'. timer_int_handler cfg s = Inr s'
         \<and> accumulatedCount s'
             = accumulatedCount s
               + (if CONFIG_ADVANCED_POWER_MANAGEMENT cfg \<and> CONFIG_TICKLESS_IDLE cfg
                  then defaultLoadVal s * SysIdleElapsedTicks s'
                  else sys_clock_hw_cycles_per_tick s))
   \<and> (\<forall>s'. no_overflow cfg evs s \<and> run cfg evs s = Inr s' \<longrightarrow>
          accumulatedCount s \<le> accumulatedCount s')
   \<and> (\<not> (CONFIG_ADVANCED_POWER_MANAGEMENT cfg \<and> CONFIG_TICKLESS_IDLE cfg) \<longrightarrow>
        (\<exists>s'. natural_interrupts cfg k s = Inr s'
           \<and> accumulatedCount s'
               = accumulatedCount s + of_nat k * sys_clock_hw_cycles_per_tick s
           \<and> K_Args s'
               = (if CONFIG_ADVANCED_POWER_MANAGEMENT cfg \<or> CONFIG_MICROKERNEL cfg
                  then K_Args s + k else K_Args s)
           \<and> nano_ticks s'
               = (if CONFIG_ADVANCED_POWER_MANAGEMENT cfg \<or> CONFIG_MICROKERNEL cfg
                  then nano_ticks s else nano_ticks s + of_nat k)
           \<and> (0 < k \<longrightarrow> timer_read s' = accumulatedCount s')
           \<and> (0 < k \<and> stcvr s \<le> strvr s \<and> strvr s < sys_clock_hw_cycles_per_tick s
                \<and> unat (accumulatedCount s) + k * unat (sys_clock_hw_cycles_per_tick s)
                    < 2 ^ 32 \<longrightarrow>
                timer_read s \<le> timer_read s')))"
proof -
  have a: "accumulatedCount (timer_idle_enter n s) = accumulatedCount s"
    by (rule timer_idle_enter_keeps_accumulator)
  have b: "\<forall>s'. timer_idle_exit s = Inr s' \<longrightarrow> accumulatedCount s' = accumulatedCount s"
    by (blast intro: timer_idle_exit_keeps_accumulator)
  note c = handler_adds [of cfg s]
  have d: "\<forall>s'. no_overflow cfg evs s \<and> run cfg evs s = Inr s' \<longrightarrow>
          accumulatedCount s \<le> accumulatedCount s'"
    by (blast intro: run_monotone)
  have e: "\<exists>s'. natural_interrupts cfg k s = Inr s'
           \<and> accumulatedCount s'
               = accumulatedCount s + of_nat k * sys_clock_hw_cycles_per_tick s
           \<and> K_Args s'
               = (if CONFIG_ADVANCED_POWER_MANAGEMENT cfg \<or> CONFIG_MICROKERNEL cfg
                  then K_Args s + k else K_Args s)
           \<and> nano_ticks s'
               = (if CONFIG_ADVANCED_POWER_MANAGEMENT cfg \<or> CONFIG_MICROKERNEL cfg
                  then nano_ticks s else nano_ticks s + of_nat k)
           \<and> (0 < k \<longrightarrow> timer_read s' = accumulatedCount s')
           \<and> (0 < k \<and> stcvr s \<le> strvr s \<and> strvr s < sys_clock_hw_cycles_per_tick s
                \<and> unat (accumulatedCount s) + k * unat (sys_clock_hw_cycles_per_tick s)
                    < 2 ^ 32 \<longrightarrow>
                timer_read s \<le> timer_read s')"
    if p: "\<not> (CONFIG_ADVANCED_POWER_MANAGEMENT cfg \<and> CONFIG_TICKLESS_IDLE cfg)"
  proof -
    from natural_interrupts_periodic [OF p, of k s]
    obtain s' where s': "natural_interrupts cfg k s = Inr s'"
      "accumulatedCount s'
         = accumulatedCount s + of_nat k * sys_clock_hw_cycles_per_tick s"
      "K_Args s' = (if CONFIG_ADVANCED_POWER_MANAGEMENT cfg \<or> CONFIG_MICROKERNEL cfg
                    then K_Args s + k else K_Args s)"
      "nano_ticks s' = (if CONFIG_ADVANCED_POWER_MANAGEMENT cfg \<or> CONFIG_MICROKERNEL cfg
                        then nano_ticks s else nano_ticks s + of_nat k)"
      "strvr s' = strvr s"
      "stcvr s' = (if k = 0 then stcvr s else strvr s)"
      by blast
    have rd: "timer_read s' = accumulatedCount s'" if "0 < k"
      using that s'(5,6) by (simp add: timer_read_def)
    have mono: "timer_read s \<le> timer_read s'"
      if "0 < k" "stcvr s \<le> strvr s" "strvr s < sys_clock_hw_cycles_per_tick s"
        "unat (accumulatedCount s) + k * unat (sys_clock_hw_cycles_per_tick s) < 2 ^ 32"
      using timer_read_after_ticks [OF s'(2) rd [OF that(1)] that] .
    from s'(1-4) rd mono show ?thesis
      by blast
  qed
  from a b c d e show ?thesis
    by blast
qed

lemma idle_cycle_handler:
  "timer_int_handler tickless_build (hw_run 0 True (timer_idle_enter 10 tickless_1000))
     = Inr (tickless_1000\<lparr>idleOrigCount := 8979, idleOrigTicks := 9,
                          SysIdleElapsedTicks := 10, K_Args := 1,
                          accumulatedCount := 9990\<rparr>)"
proof -
  have e: "hw_run 0 True (timer_idle_enter 10 tickless_1000)
      = tickless_1000\<lparr>idleOrigCount := 8979, idleOrigTicks := 9, strvr := 8979,
          stcsr := 0x10007, timerMode := TIMER_MODE_ONE_SHOT, idleMode := IDLE_TICKLESS\<rparr>"
    by (simp add: tickless_1000_def hw_run_def enter_simps stcsr_bits)
  show ?thesis
    unfolding e
    by (simp add: tickless_1000_def tickless_build_def handler_simps stcsr_bits)
qed

lemma idle_cycle_run:
  "run tickless_build idle_cycle tickless_1000
     = Inr (tickless_1000\<lparr>idleOrigCount := 8979, idleOrigTicks := 9,
                          SysIdleElapsedTicks := 10, K_Args := 1,
                          accumulatedCount := 9990\<rparr>)"
  by (simp add: idle_cycle_def idle_cycle_handler)
     (simp add: timer_idle_exit_def tickless_1000_def)

lemma idle_cycle_no_overflow: "no_overflow tickless_build idle_cycle tickless_1000"
  by (simp add: idle_cycle_def idle_cycle_handler)
     (simp add: timer_idle_exit_def tickless_1000_def tick_cycles_def tickless_build_def
       hw_run_def enter_simps)


lemma timer_read_after_periodic:
  assumes "\<not> (CONFIG_ADVANCED_POWER_MANAGEMENT cfg \<and> CONFIG_TICKLESS_IDLE cfg)" and "0 < k"
  shows "map_sum id timer_read (natural_interrupts cfg k s)
     = Inr (accumulatedCount s + of_nat k * sys_clock_hw_cycles_per_tick s)"
proof -
  from natural_interrupts_periodic [OF assms(1), of k s]
  obtain s' where "natural_interrupts cfg k s = Inr s'"
    "accumulatedCount s' = accumulatedCount s + of_nat k * sys_clock_hw_cycles_per_tick s"
    "strvr s' = strvr s" "stcvr s' = (if k = 0 then stcvr s else strvr s)"
    by blast
  with assms(2) show ?thesis
    by (simp add: timer_read_def)
qed

lemma tickless_first_interrupt:
  "natural_interrupts tickless_build 1 tickless_1000
     = Inr (tickless_1000\<lparr>stcvr := 999, stcsr := 0x10007, SysIdleElapsedTicks := 1,
                          K_Args := 1, accumulatedCount := 999\<rparr>)"
  by (simp add: tickless_build_def tickless_1000_def hw_run_def timer_int_handler_def Let_def
      nano_isr_stack_push_TICK_EVENT_def stcsr_bits)

theorem accumulator_discipline_witness:
  "timer_idle_exit periodic_1000 = Inr periodic_1000
   \<and> \<not> (CONFIG_ADVANCED_POWER_MANAGEMENT periodic_build \<and> CONFIG_TICKLESS_IDLE periodic_build)
   \<and> timer_driver periodic_build (0, 0, 0) (boot_state 1000) = Inr periodic_1000
   \<and> (\<exists>s'. natural_interrupts periodic_build 5 periodic_1000 = Inr s'
         \<and> accumulatedCount s' = 5000 \<and> K_Args s' = 5 \<and> nano_ticks s' = 0
         \<and> timer_read s' = 5000 \<and> timer_read periodic_1000 \<le> timer_read s')
   \<and> (\<exists>s'. natural_interrupts nanokernel_build 5 periodic_1000 = Inr s'
         \<and> accumulatedCount s' = 5000 \<and> K_Args s' = 0 \<and> nano_ticks s' = 5)
   \<and> no_overflow tickless_build idle_cycle tickless_1000
   \<and> (\<exists>s'. run tickless_build idle_cycle tickless_1000 = Inr s'
         \<and> accumulatedCount s' = 9990
         \<and> accumulatedCount tickless_1000 \<le> accumulatedCount s')"
proof -
  have x: "timer_idle_exit periodic_1000 = Inr periodic_1000"
    by (simp add: timer_idle_exit_def periodic_1000_def)
  have c: "\<not> (CONFIG_ADVANCED_POWER_MANAGEMENT periodic_build
              \<and> CONFIG_TICKLESS_IDLE periodic_build)"
    "\<not> (CONFIG_ADVANCED_POWER_MANAGEMENT nanokernel_build
         \<and> CONFIG_TICKLESS_IDLE nanokernel_build)"
    "CONFIG_MICROKERNEL periodic_build" "\<not> CONFIG_MICROKERNEL nanokernel_build"
    "\<not> CONFIG_ADVANCED_POWER_MANAGEMENT nanokernel_build"
    by (simp_all add: periodic_build_def nanokernel_build_def)
  have v: "accumulatedCount periodic_1000 = 0" "K_Args periodic_1000 = 0"
    "nano_ticks periodic_1000 = 0"
    "sys_clock_hw_cycles_per_tick periodic_1000 = 1000"
    "stcvr periodic_1000 = 0" "strvr periodic_1000 = 999"
    by (simp_all add: periodic_1000_def)
  have p: "\<exists>s'. natural_interrupts periodic_build 5 periodic_1000 = Inr s'
         \<and> accumulatedCount s' = 5000 \<and> K_Args s' = 5 \<and> nano_ticks s' = 0
         \<and> timer_read s' = 5000 \<and> timer_read periodic_1000 \<le> timer_read s'"
    using accumulator_discipline [of 10 periodic_1000 periodic_build "[]" 5] c
    by (auto simp add: v)
  have n: "\<exists>s'. natural_interrupts nanokernel_build 5 periodic_1000 = Inr s'
         \<and> accumulatedCount s' = 5000 \<and> K_Args s' = 0 \<and> nano_ticks s' = 5"
    using accumulator_discipline [of 10 periodic_1000 nanokernel_build "[]" 5] c
    by (auto simp add: v)
  have r: "\<exists>s'. run tickless_build idle_cycle tickless_1000 = Inr s'
         \<and> accumulatedCount s' = 9990
         \<and> accumulatedCount tickless_1000 \<le> accumulatedCount s'"
    using accumulator_discipline [of 10 tickless_1000 tickless_build idle_cycle 0]
      idle_cycle_no_overflow idle_cycle_run
    by auto
  from x c(1) timer_driver_periodic_1000 p n idle_cycle_no_overflow r show ?thesis
    by blast
qed

text \<open>
  Claim C3 as stated fails in four places. With \<open>2^24\<close> cycles per tick \<^verbatim>\<open>timer_read\<close>
  is \<open>0xFF000000\<close> after 255 interrupts and 0 after 256: the 32-bit accumulator has
  wrapped. With 1000 cycles per tick and nothing near an overflow, \<^verbatim>\<open>timer_read\<close> is
  998 one cycle before the counter wraps and 0 once it has reloaded, before the handler
  has added the tick. In the tickless build the first interrupt after configuration adds
  \<open>defaultLoadVal = 999\<close>, not 1000. And there an idle exit that reprograms the reload
  register takes \<^verbatim>\<open>timer_read\<close> from 3497 down to 500.
\<close>

theorem accumulator_counterexample:
  "timer_driver periodic_build (0, 0, 0) (boot_state 0x1000000) = Inr periodic_16M
   \<and> map_sum id timer_read (natural_interrupts periodic_build 255 periodic_16M)
       = Inr 0xFF000000
   \<and> map_sum id timer_read (natural_interrupts periodic_build 256 periodic_16M) = Inr 0
   \<and> timer_driver periodic_build (0, 0, 0) (boot_state 1000) = Inr periodic_1000
   \<and> timer_read (hw_run 1 False periodic_1000) = 998
   \<and> timer_read (hw_run 999 True periodic_1000) = 0
   \<and> timer_driver tickless_build (995, 990, 983) (boot_state 1000) = Inr tickless_1000
   \<and> map_sum id timer_read (natural_interrupts tickless_build 1 tickless_1000) = Inr 999
   \<and> timer_read (hw_run 5979 False (timer_idle_enter 10 (hw_run 497 False tickless_1000)))
       = 3497
   \<and> map_sum id timer_read
        (timer_idle_exit
           (hw_run 5979 False (timer_idle_enter 10 (hw_run 497 False tickless_1000))))
       = Inr 500"
proof -
  have c: "\<not> (CONFIG_ADVANCED_POWER_MANAGEMENT periodic_build
              \<and> CONFIG_TICKLESS_IDLE periodic_build)"
    by (simp add: periodic_build_def)
  have v: "accumulatedCount periodic_16M = 0"
    "sys_clock_hw_cycles_per_tick periodic_16M = 0x1000000"
    by (simp_all add: periodic_16M_def)
  have a: "map_sum id timer_read (natural_interrupts periodic_build 255 periodic_16M)
       = Inr 0xFF000000"
    by (subst timer_read_after_periodic [OF c]) (simp_all add: v)
  have b: "map_sum id timer_read (natural_interrupts periodic_build 256 periodic_16M) = Inr 0"
    by (subst timer_read_after_periodic [OF c]) (simp_all add: v)
  have d: "timer_read (hw_run 1 False periodic_1000) = 998"
    "timer_read (hw_run 999 True periodic_1000) = 0"
    by (simp_all add: timer_read_def hw_run_def periodic_1000_def)
  have e: "map_sum id timer_read (natural_interrupts tickless_build 1 tickless_1000) = Inr 999"
    by (simp only: tickless_first_interrupt) (simp add: timer_read_def tickless_1000_def)
  let ?i = "hw_run 5979 False (timer_idle_enter 10 (hw_run 497 False tickless_1000))"
  have i: "?i = tickless_1000\<lparr>stcvr := 5979, strvr := 9476, idleOrigCount := 9476,
              idleOrigTicks := 9, timerMode := TIMER_MODE_ONE_SHOT,
              idleMode := IDLE_TICKLESS\<rparr>"
    by (simp add: tickless_1000_def hw_run_def enter_simps stcsr_bits)
  have f: "timer_read ?i = 3497"
    unfolding i by (simp add: timer_read_def tickless_1000_def)
  have g: "map_sum id timer_read (timer_idle_exit ?i) = Inr 500"
  proof -
    let ?j = "tickless_1000\<lparr>stcvr := 5979, strvr := 9476, idleOrigCount := 9476,
              idleOrigTicks := 9, timerMode := TIMER_MODE_ONE_SHOT,
              idleMode := IDLE_TICKLESS\<rparr>"
    let ?s1 = "?j\<lparr>stcsr := 4\<rparr>"
    have s1: "sysTickStop ?j = ?s1"
      by (simp add: tickless_1000_def sysTickStop_eq stcsr_bits)
    have cf: "countflag_get ?s1 = (False, ?s1)"
      by (simp add: countflag_get_def stcsr_read_def stcsr_bits tickless_1000_def)
    have m: "timerMode ?j \<noteq> TIMER_MODE_PERIODIC"
      by simp
    have w: "stcvr ?s1 = 5979" "defaultLoadVal ?s1 = 999" "idleOrigCount ?s1 = 9476"
      "defaultLoadVal (sysTickReloadSet 500 ?s1) = 999"
      by (simp_all add: tickless_1000_def sysTickReloadSet_eq)
    have fin: "timer_read (sysTickStart (nano_isr_stack_push_TICK_EVENT
                 ((sysTickReloadSet 500 ?s1)\<lparr>SysIdleElapsedTicks := 3\<rparr>)
                 \<lparr>idleMode := IDLE_NOT_TICKLESS\<rparr>)) = 500"
      by (simp add: timer_read_def tickless_1000_def sysTickStart_eq sysTickReloadSet_eq
          nano_isr_stack_push_TICK_EVENT_def)
    show ?thesis
      unfolding i using m
      by (simp add: timer_idle_exit_def s1 sysTickCurrentGet_def cf w Let_def fin)
  qed
  from a b d e f g timer_driver_periodic_16M timer_driver_periodic_1000
    timer_driver_tickless_1000 show ?thesis
    by simp
qed

end
